theory Spec2Isabelle
  imports Complex_Main
begin

section \<open>Values of the Python runtime\<close>

text \<open>
  Exceptions are values. Only subclasses of Python's \<^verbatim>\<open>Exception\<close> occur: they are
  what the library calls of the program raise, and what \<^verbatim>\<open>except Exception\<close> catches.
\<close>

datatype exn = IndexError | ZeroDivisionError | ValueError | OSError | SMTPException

text \<open>
  \<^verbatim>\<open>scipy.spatial.distance.euclidean\<close> on integer arrays returns a numpy
  \<^verbatim>\<open>float64\<close> scalar, and arithmetic with such a scalar stays in numpy: a division by
  zero does not raise (it warns) and yields an infinity or NaN. Finite values are
  modelled by real numbers (rounding and signed zeros are not modelled); the special
  values are written out, since the comparisons of the detector depend on them.
\<close>

datatype float64 = F64 real | PosInf | NegInf | NaN

fun np_add :: "float64 \<Rightarrow> float64 \<Rightarrow> float64" where
  "np_add (F64 a) (F64 b) = F64 (a + b)"
| "np_add NaN _ = NaN"
| "np_add _ NaN = NaN"
| "np_add PosInf NegInf = NaN"
| "np_add NegInf PosInf = NaN"
| "np_add PosInf _ = PosInf"
| "np_add _ PosInf = PosInf"
| "np_add NegInf _ = NegInf"
| "np_add _ NegInf = NegInf"

fun np_truediv :: "float64 \<Rightarrow> float64 \<Rightarrow> float64" where
  "np_truediv (F64 a) (F64 b) =
     (if b \<noteq> 0 then F64 (a / b)
      else if a = 0 then NaN
      else if 0 < a then PosInf else NegInf)"
| "np_truediv NaN _ = NaN"
| "np_truediv _ NaN = NaN"
| "np_truediv (F64 a) _ = F64 0"
| "np_truediv PosInf (F64 b) = (if 0 \<le> b then PosInf else NegInf)"
| "np_truediv NegInf (F64 b) = (if 0 \<le> b then NegInf else PosInf)"
| "np_truediv _ _ = NaN"

text \<open>The comparison \<^verbatim>\<open><\<close> of IEEE 754: false as soon as one side is NaN.\<close>

fun np_lt :: "float64 \<Rightarrow> float64 \<Rightarrow> bool" where
  "np_lt (F64 a) (F64 b) = (a < b)"
| "np_lt NaN _ = False"
| "np_lt _ NaN = False"
| "np_lt _ NegInf = False"
| "np_lt PosInf _ = False"
| "np_lt _ _ = True"


section \<open>Configuration (config.py)\<close>

text \<open>
  The module-level settings the detector reads. They can be reassigned while the
  program runs, so they are a parameter of every operation rather than constants.
\<close>

record config =
  EAR_THRESHOLD :: float64
  DROWSINESS_FRAMES_THRESHOLD :: int
  AUDIO_ALERT_COOLDOWN :: int
  EMAIL_ALERT_COOLDOWN :: int

definition default_config :: config where
  "default_config =
     \<lparr>EAR_THRESHOLD = F64 0.25, DROWSINESS_FRAMES_THRESHOLD = 20,
      AUDIO_ALERT_COOLDOWN = 5, EMAIL_ALERT_COOLDOWN = 60\<rparr>"

section \<open>The detector (drowsiness_detector.py)\<close>

text \<open>
  The fields of \<^verbatim>\<open>DrowsinessDetector\<close> that carry detection state and statistics.
  The camera handle, the models and the \<^verbatim>\<open>running\<close> flag play no part in the
  properties below.
\<close>

record detector =
  is_drowsy :: bool
  eye_closed_frames :: int
  last_alert_time :: real
  last_email_time :: real
  total_frames :: int
  drowsy_detections :: int
  session_start_time :: real

text \<open>\<^verbatim>\<open>__init__\<close>; the argument is the reading of \<^verbatim>\<open>time.time()\<close> at construction.\<close>

definition init_detector :: "real \<Rightarrow> detector" where
  "init_detector t0 =
     \<lparr>is_drowsy = False, eye_closed_frames = 0, last_alert_time = 0,
      last_email_time = 0, total_frames = 0, drowsy_detections = 0,
      session_start_time = t0\<rparr>"

subsection \<open>Geometry: the eye aspect ratio\<close>

type_synonym point = "int \<times> int"

text \<open>\<^verbatim>\<open>dist.euclidean\<close> on two points with integer pixel coordinates.\<close>

definition euclidean :: "point \<Rightarrow> point \<Rightarrow> real" where
  "euclidean p q =
     sqrt (real_of_int ((fst p - fst q)\<^sup>2 + (snd p - snd q)\<^sup>2))"

text \<open>
  \<^verbatim>\<open>calculate_ear\<close>. The rows 0 to 5 of the array are read; an array with fewer rows
  makes the indexing raise. The quotient is a division of numpy scalars.
\<close>

fun calculate_ear :: "point list \<Rightarrow> exn + float64" where
  "calculate_ear (p0 # p1 # p2 # p3 # p4 # p5 # rest) =
     (let A = euclidean p1 p5;
          B = euclidean p2 p4;
          C = euclidean p0 p3
      in Inr (np_truediv (F64 (A + B)) (F64 (2 * C))))"
| "calculate_ear _ = Inl IndexError"

text \<open>
  The landmark provider returns 68 points per face, read through \<^verbatim>\<open>part(i)\<close>.
\<close>

type_synonym landmarks = "nat \<Rightarrow> point"

definition extract_eye_landmarks :: "landmarks \<Rightarrow> point list \<times> point list" where
  "extract_eye_landmarks lm = (map lm [36..<42], map lm [42..<48])"

text \<open>
  Lines 131 to 136 of \<^verbatim>\<open>process_frame\<close>: the value of \<^verbatim>\<open>current_ear\<close> for one face.
\<close>

definition current_ear_of :: "landmarks \<Rightarrow> exn + float64" where
  "current_ear_of lm =
     (case extract_eye_landmarks lm of (left_eye, right_eye) \<Rightarrow>
        (case calculate_ear left_eye of
           Inl e \<Rightarrow> Inl e
         | Inr left_ear \<Rightarrow>
             (case calculate_ear right_eye of
                Inl e \<Rightarrow> Inl e
              | Inr right_ear \<Rightarrow> Inr (np_truediv (np_add left_ear right_ear) (F64 2)))))"

subsection \<open>Alert dispatch\<close>

datatype channel = Audio | Email

text \<open>
  \<^verbatim>\<open>handle_drowsiness_detection\<close>. The clock reading \<^verbatim>\<open>time.time()\<close> is the argument
  \<open>current_time\<close>. Starting a channel's background thread is recorded as the channel in
  the returned list; the timestamp is written right after the thread is started,
  whatever the thread does later. Creating the snapshot directory, writing the
  snapshot and starting a thread are taken to succeed.
\<close>

definition handle_drowsiness_detection ::
  "config \<Rightarrow> real \<Rightarrow> detector \<Rightarrow> detector \<times> channel list" where
  "handle_drowsiness_detection cfg current_time s =
     (let (s1, a) =
            (if current_time - last_alert_time s > real_of_int (AUDIO_ALERT_COOLDOWN cfg)
             then (s\<lparr>last_alert_time := current_time\<rparr>, [Audio])
             else (s, []));
          (s2, m) =
            (if current_time - last_email_time s1 > real_of_int (EMAIL_ALERT_COOLDOWN cfg)
             then (s1\<lparr>last_email_time := current_time\<rparr>, [Email])
             else (s1, []))
      in (s2, a @ m))"

subsection \<open>The per-face state machine and the frame loop\<close>

text \<open>An onset event carries the channels that were dispatched for it.\<close>

datatype event = DrowsyOnset "channel list"

text \<open>
  Lines 147 to 164 of \<^verbatim>\<open>process_frame\<close> (``Check for drowsiness''), run once for
  every detected face. \<open>now\<close> is what the clock reads if the handler runs here.
\<close>

definition check_drowsiness ::
  "config \<Rightarrow> real \<Rightarrow> detector \<Rightarrow> float64 \<Rightarrow> detector \<times> event list" where
  "check_drowsiness cfg now s current_ear =
     (if np_lt current_ear (EAR_THRESHOLD cfg) then
        (let s1 = s\<lparr>eye_closed_frames := eye_closed_frames s + 1\<rparr> in
         if eye_closed_frames s1 \<ge> DROWSINESS_FRAMES_THRESHOLD cfg then
           (if \<not> is_drowsy s1 then
              (let s2 = s1\<lparr>is_drowsy := True\<rparr>;
                   s3 = s2\<lparr>drowsy_detections := drowsy_detections s2 + 1\<rparr>;
                   (s4, fired) = handle_drowsiness_detection cfg now s3
               in (s4, [DrowsyOnset fired]))
            else (s1, []))
         else (s1, []))
      else (s\<lparr>eye_closed_frames := 0, is_drowsy := False\<rparr>, []))"

text \<open>
  A frame is what the face detector and the landmark predictor return for it: one
  landmark set per detected face, in detection order, each with the clock reading at
  the moment that face is checked. Drawing on the image is left out.
\<close>

type_synonym face = "landmarks \<times> real"
type_synonym frame = "face list"

text \<open>
  \<^verbatim>\<open>process_frame\<close>: the loop over the detected faces. An exception ends the loop; the
  fields written before it keep their values, so the state is returned in both cases.
\<close>

fun process_frame ::
  "config \<Rightarrow> detector \<Rightarrow> frame \<Rightarrow> detector \<times> event list \<times> exn option" where
  "process_frame cfg s [] = (s, [], None)"
| "process_frame cfg s ((lm, now) # faces) =
     (case current_ear_of lm of
        Inl e \<Rightarrow> (s, [], Some e)
      | Inr current_ear \<Rightarrow>
          (let (s1, ev) = check_drowsiness cfg now s current_ear;
               (s2, evs, r) = process_frame cfg s1 faces
           in (s2, ev @ evs, r)))"

text \<open>
  The loop of \<^verbatim>\<open>start_detection\<close> over the frames the camera delivers until the session
  stops: count the frame, then process it. An exception is caught outside the loop and
  ends it. The result lists the events of every frame that was taken up.
\<close>

fun detection_loop ::
  "config \<Rightarrow> detector \<Rightarrow> frame list \<Rightarrow> detector \<times> event list list" where
  "detection_loop cfg s [] = (s, [])"
| "detection_loop cfg s (f # fs) =
     (let s1 = s\<lparr>total_frames := total_frames s + 1\<rparr>;
          (s2, ev, r) = process_frame cfg s1 f
      in case r of
           Some e \<Rightarrow> (s2, [ev])
         | None \<Rightarrow> (let (s3, evs) = detection_loop cfg s2 fs in (s3, ev # evs)))"


section \<open>The streaming consumer (web_interface.py)\<close>


section \<open>Statistics of the detector\<close>




section \<open>The email channel (email_notifier.py)\<close>

record email_notifier =
  smtp_server :: string
  smtp_port :: int
  sender_email :: string
  sender_password :: string
  receiver_email :: string

record message =
  msg_from :: string
  msg_to :: string
  msg_time :: string
  msg_attachment :: "string option"

text \<open>
  What the world outside answers to the calls of \<^verbatim>\<open>send_alert\<close>: formatting the
  timestamp, the file system, and each step of the SMTP conversation (\<open>None\<close> when the
  step goes through, \<open>Some e\<close> when it raises \<open>e\<close>).
\<close>

record mail_env =
  fromtimestamp :: "real \<Rightarrow> exn + string"
  path_exists :: "string \<Rightarrow> bool"
  read_file :: "string \<Rightarrow> exn + string"
  smtp_connect :: "exn option"
  smtp_starttls :: "exn option"
  smtp_login :: "exn option"
  smtp_send_message :: "message \<Rightarrow> exn option"
  smtp_quit :: "exn option"

datatype mail_action = Connect | StartTLS | Login | SendMessage message | Quit

text \<open>
  \<^verbatim>\<open>create_message\<close>: a failure to format the timestamp leaves the function; a failure
  to attach the snapshot is caught inside and gives a message without attachment.
\<close>

definition create_message ::
  "mail_env \<Rightarrow> email_notifier \<Rightarrow> string \<Rightarrow> real \<Rightarrow> exn + message" where
  "create_message env n snapshot_path detection_time =
     (case fromtimestamp env detection_time of
        Inl e \<Rightarrow> Inl e
      | Inr stamp \<Rightarrow>
          Inr \<lparr>msg_from = sender_email n, msg_to = receiver_email n, msg_time = stamp,
               msg_attachment =
                 (if snapshot_path \<noteq> [] \<and> path_exists env snapshot_path
                  then (case read_file env snapshot_path of
                          Inl e \<Rightarrow> None
                        | Inr img \<Rightarrow> Some img)
                  else None)\<rparr>)"

text \<open>
  The \<^verbatim>\<open>with smtplib.SMTP(...) as server\<close> block: connect, then the three calls of the
  body, then the \<^verbatim>\<open>QUIT\<close> of the context manager, which runs also when the body raised.
  The second component lists the steps that went through.
\<close>

definition smtp_session :: "mail_env \<Rightarrow> message \<Rightarrow> (exn + unit) \<times> mail_action list" where
  "smtp_session env msg =
     (case smtp_connect env of
        Some e \<Rightarrow> (Inl e, [])
      | None \<Rightarrow>
          (let (body, done) =
                 (case smtp_starttls env of
                    Some e \<Rightarrow> (Inl e, [Connect])
                  | None \<Rightarrow>
                      (case smtp_login env of
                         Some e \<Rightarrow> (Inl e, [Connect, StartTLS])
                       | None \<Rightarrow>
                           (case smtp_send_message env msg of
                              Some e \<Rightarrow> (Inl e, [Connect, StartTLS, Login])
                            | None \<Rightarrow> (Inr (), [Connect, StartTLS, Login, SendMessage msg]))))
           in case smtp_quit env of
                Some e \<Rightarrow> (Inl e, done)
              | None \<Rightarrow> (body, done @ [Quit])))"

text \<open>Python's \<^verbatim>\<open>all\<close> on strings: every one of them is non-empty.\<close>

definition py_all :: "string list \<Rightarrow> bool" where
  "py_all xs = list_all (\<lambda>x. x \<noteq> []) xs"

text \<open>The body of the \<^verbatim>\<open>try\<close> block of \<^verbatim>\<open>send_alert\<close>.\<close>

definition send_alert_try ::
  "mail_env \<Rightarrow> email_notifier \<Rightarrow> string \<Rightarrow> real \<Rightarrow> (exn + bool) \<times> mail_action list" where
  "send_alert_try env n snapshot_path detection_time =
     (if \<not> py_all [sender_email n, sender_password n, receiver_email n] then (Inr False, [])
      else (case create_message env n snapshot_path detection_time of
              Inl e \<Rightarrow> (Inl e, [])
            | Inr msg \<Rightarrow>
                (case smtp_session env msg of
                   (Inl e, done) \<Rightarrow> (Inl e, done)
                 | (Inr u, done) \<Rightarrow> (Inr True, done))))"

text \<open>\<^verbatim>\<open>send_alert\<close>: the \<^verbatim>\<open>try\<close> block under its \<^verbatim>\<open>except Exception\<close> handler.\<close>

definition send_alert ::
  "mail_env \<Rightarrow> email_notifier \<Rightarrow> string \<Rightarrow> real \<Rightarrow> (exn + bool) \<times> mail_action list" where
  "send_alert env n snapshot_path detection_time =
     (case send_alert_try env n snapshot_path detection_time of
        (Inl e, done) \<Rightarrow> (Inr False, done)
      | (Inr b, done) \<Rightarrow> (Inr b, done))"

section \<open>Derived notions used in the statements\<close>

text \<open>The value of \<^verbatim>\<open>current_ear\<close> for a face (the geometry never raises, see below).\<close>

definition face_ear :: "landmarks \<Rightarrow> float64" where
  "face_ear lm = (case current_ear_of lm of Inr v \<Rightarrow> v | Inl e \<Rightarrow> NaN)"

text \<open>A face reading below the threshold; a frame all of whose faces read below it.\<close>

definition face_low :: "config \<Rightarrow> face \<Rightarrow> bool" where
  "face_low cfg fc = np_lt (face_ear (fst fc)) (EAR_THRESHOLD cfg)"

definition frame_low :: "config \<Rightarrow> frame \<Rightarrow> bool" where
  "frame_low cfg f = list_all (face_low cfg) f"

definition single_low :: "config \<Rightarrow> frame \<Rightarrow> bool" where
  "single_low cfg f \<longleftrightarrow> length f = 1 \<and> frame_low cfg f"

text \<open>The number of onset events in the per-frame event lists of a run.\<close>

definition onsets :: "event list list \<Rightarrow> nat" where
  "onsets evs = length (concat evs)"

text \<open>The invariant of the detection state.\<close>

definition state_ok :: "config \<Rightarrow> detector \<Rightarrow> bool" where
  "state_ok cfg s \<longleftrightarrow>
     (is_drowsy s \<longrightarrow> DROWSINESS_FRAMES_THRESHOLD cfg \<le> eye_closed_frames s)
     \<and> 0 \<le> eye_closed_frames s"

text \<open>
  Test inputs. \<open>axis_face a b c\<close> has both eyes with the corners \<open>c\<close> pixels apart and
  the two lid pairs \<open>a\<close> and \<open>b\<close> pixels apart, so its ratio is \<open>(|a| + |b|) / (2 |c|)\<close>.
\<close>

definition axis_face :: "int \<Rightarrow> int \<Rightarrow> int \<Rightarrow> landmarks" where
  "axis_face a b c i =
     (if i = 37 \<or> i = 43 then (0, a)
      else if i = 38 \<or> i = 44 then (0, b)
      else if i = 39 \<or> i = 45 then (c, 0)
      else (0, 0))"

definition scenario_config :: config where
  "scenario_config =
     \<lparr>EAR_THRESHOLD = F64 0.25, DROWSINESS_FRAMES_THRESHOLD = 3,
      AUDIO_ALERT_COOLDOWN = 5, EMAIL_ALERT_COOLDOWN = 60\<rparr>"

text \<open>
  A notifier as \<^verbatim>\<open>config.py\<close> sets it up when the environment gives no credentials,
  one with credentials, and a world in which every SMTP step raises.
\<close>

definition unconfigured_notifier :: email_notifier where
  "unconfigured_notifier =
     \<lparr>smtp_server = ''smtp.gmail.com'', smtp_port = 587, sender_email = [],
      sender_password = [], receiver_email = []\<rparr>"

definition configured_notifier :: email_notifier where
  "configured_notifier =
     \<lparr>smtp_server = ''smtp.gmail.com'', smtp_port = 587, sender_email = ''a@x.org'',
      sender_password = ''secret'', receiver_email = ''b@x.org''\<rparr>"

definition offline_env :: mail_env where
  "offline_env =
     \<lparr>fromtimestamp = (\<lambda>t. Inr ''1970-01-01 00:00:01''),
      path_exists = (\<lambda>p. False),
      read_file = (\<lambda>p. Inl OSError),
      smtp_connect = Some OSError,
      smtp_starttls = Some SMTPException,
      smtp_login = Some SMTPException,
      smtp_send_message = (\<lambda>m. Some SMTPException),
      smtp_quit = Some SMTPException\<rparr>"

section \<open>Auxiliary facts\<close>


lemma euclidean_nonneg: "0 \<le> euclidean p q"
  by (simp add: euclidean_def)

lemma euclidean_eq_0_iff: "euclidean p q = 0 \<longleftrightarrow> p = q"
proof -
  have "(fst p - fst q)\<^sup>2 + (snd p - snd q)\<^sup>2 = 0 \<longleftrightarrow> fst p = fst q \<and> snd p = snd q"
    by (simp add: sum_power2_eq_zero_iff)
  then show ?thesis
    by (simp add: euclidean_def prod_eq_iff)
qed

lemma extract_eye_landmarks_points:
  "extract_eye_landmarks lm =
     ([lm 36, lm 37, lm 38, lm 39, lm 40, lm 41],
      [lm 42, lm 43, lm 44, lm 45, lm 46, lm 47])"
proof -
  have l: "[36..<42] = [36, 37, 38, 39, 40, 41::nat]" by (simp add: upt_rec)
  have r: "[42..<48] = [42, 43, 44, 45, 46, 47::nat]" by (simp add: upt_rec)
  show ?thesis by (simp add: extract_eye_landmarks_def l r)
qed

lemma current_ear_of_total:
  "current_ear_of lm =
     Inr (np_truediv
            (np_add
               (np_truediv (F64 (euclidean (lm 37) (lm 41) + euclidean (lm 38) (lm 40)))
                           (F64 (2 * euclidean (lm 36) (lm 39))))
               (np_truediv (F64 (euclidean (lm 43) (lm 47) + euclidean (lm 44) (lm 46)))
                           (F64 (2 * euclidean (lm 42) (lm 45)))))
            (F64 2))"
  by (simp add: current_ear_of_def extract_eye_landmarks_points)



lemma current_ear_of_face_ear: "current_ear_of lm = Inr (face_ear lm)"
  by (simp add: face_ear_def current_ear_of_total)

lemma process_frame_Cons:
  "process_frame cfg s ((lm, now) # faces) =
     (let (s1, ev) = check_drowsiness cfg now s (face_ear lm);
          (s2, evs, r) = process_frame cfg s1 faces
      in (s2, ev @ evs, r))"
  by (simp add: current_ear_of_face_ear)

lemma process_frame_no_exn: "snd (snd (process_frame cfg s f)) = None"
proof (induction f arbitrary: s)
  case Nil
  show ?case by simp
next
  case (Cons a f)
  obtain lm now where a: "a = (lm, now)" by (cases a)
  obtain s1 ev where c: "check_drowsiness cfg now s (face_ear lm) = (s1, ev)"
    by (cases "check_drowsiness cfg now s (face_ear lm)")
  obtain s2 evs r where p: "process_frame cfg s1 f = (s2, evs, r)"
    by (cases "process_frame cfg s1 f")
  from Cons.IH [of s1] p have "r = None" by simp
  then show ?case by (simp add: a c p current_ear_of_face_ear)
qed

lemma handle_fields:
  "is_drowsy (fst (handle_drowsiness_detection cfg t s)) = is_drowsy s"
  "eye_closed_frames (fst (handle_drowsiness_detection cfg t s)) = eye_closed_frames s"
  "drowsy_detections (fst (handle_drowsiness_detection cfg t s)) = drowsy_detections s"
  "total_frames (fst (handle_drowsiness_detection cfg t s)) = total_frames s"
  "session_start_time (fst (handle_drowsiness_detection cfg t s)) = session_start_time s"
  by (simp_all add: handle_drowsiness_detection_def Let_def split: prod.splits)

lemma check_drowsiness_low:
  assumes "np_lt ear (EAR_THRESHOLD cfg)"
  shows "check_drowsiness cfg now s ear =
           (if DROWSINESS_FRAMES_THRESHOLD cfg \<le> eye_closed_frames s + 1 \<and> \<not> is_drowsy s
            then (fst (handle_drowsiness_detection cfg now
                        (s\<lparr>eye_closed_frames := eye_closed_frames s + 1, is_drowsy := True,
                           drowsy_detections := drowsy_detections s + 1\<rparr>)),
                  [DrowsyOnset (snd (handle_drowsiness_detection cfg now
                        (s\<lparr>eye_closed_frames := eye_closed_frames s + 1, is_drowsy := True,
                           drowsy_detections := drowsy_detections s + 1\<rparr>)))])
            else (s\<lparr>eye_closed_frames := eye_closed_frames s + 1\<rparr>, []))"
  using assms by (simp add: check_drowsiness_def Let_def split: prod.splits)

lemma check_drowsiness_high:
  assumes "\<not> np_lt ear (EAR_THRESHOLD cfg)"
  shows "check_drowsiness cfg now s ear = (s\<lparr>eye_closed_frames := 0, is_drowsy := False\<rparr>, [])"
  using assms by (simp add: check_drowsiness_def)



declare process_frame.simps(2) [simp del]

lemma check_drowsiness_ok:
  assumes "state_ok cfg s" "check_drowsiness cfg now s ear = (s', ev)"
  shows "state_ok cfg s'"
proof (cases "np_lt ear (EAR_THRESHOLD cfg)")
  case True
  with assms show ?thesis
    by (auto simp: check_drowsiness_low state_ok_def handle_fields split: if_splits)
next
  case False
  with assms show ?thesis
    by (auto simp: check_drowsiness_high state_ok_def)
qed

lemma check_drowsiness_detections:
  assumes "check_drowsiness cfg now s ear = (s', ev)"
  shows "drowsy_detections s' = drowsy_detections s + int (length ev)"
    and "total_frames s' = total_frames s"
    and "session_start_time s' = session_start_time s"
proof -
  show "drowsy_detections s' = drowsy_detections s + int (length ev)"
  proof (cases "np_lt ear (EAR_THRESHOLD cfg)")
    case True
    with assms show ?thesis
      by (auto simp: check_drowsiness_low handle_fields split: if_splits)
  next
    case False
    with assms show ?thesis by (auto simp: check_drowsiness_high)
  qed
  show "total_frames s' = total_frames s"
  proof (cases "np_lt ear (EAR_THRESHOLD cfg)")
    case True
    with assms show ?thesis
      by (auto simp: check_drowsiness_low handle_fields split: if_splits)
  next
    case False
    with assms show ?thesis by (auto simp: check_drowsiness_high)
  qed
  show "session_start_time s' = session_start_time s"
  proof (cases "np_lt ear (EAR_THRESHOLD cfg)")
    case True
    with assms show ?thesis
      by (auto simp: check_drowsiness_low handle_fields split: if_splits)
  next
    case False
    with assms show ?thesis by (auto simp: check_drowsiness_high)
  qed
qed

lemma process_frame_ok:
  "state_ok cfg s \<Longrightarrow> process_frame cfg s f = (s', evs, r) \<Longrightarrow> state_ok cfg s'"
proof (induction f arbitrary: s s' evs r)
  case Nil
  then show ?case by simp
next
  case (Cons a f)
  obtain lm now where a: "a = (lm, now)" by (cases a)
  obtain s1 ev where c: "check_drowsiness cfg now s (face_ear lm) = (s1, ev)"
    by (cases "check_drowsiness cfg now s (face_ear lm)")
  obtain s2 evs2 r2 where p: "process_frame cfg s1 f = (s2, evs2, r2)"
    by (cases "process_frame cfg s1 f")
  from Cons.prems(2) have "s' = s2" by (simp add: a c p process_frame_Cons)
  moreover have "state_ok cfg s1" using Cons.prems(1) c by (rule check_drowsiness_ok)
  ultimately show ?case using Cons.IH [OF _ p] by simp
qed

lemma process_frame_detections:
  "process_frame cfg s f = (s', evs, r) \<Longrightarrow>
     drowsy_detections s' = drowsy_detections s + int (length evs)
     \<and> total_frames s' = total_frames s
     \<and> session_start_time s' = session_start_time s"
proof (induction f arbitrary: s s' evs r)
  case Nil
  then show ?case by simp
next
  case (Cons a f)
  obtain lm now where a: "a = (lm, now)" by (cases a)
  obtain s1 ev where c: "check_drowsiness cfg now s (face_ear lm) = (s1, ev)"
    by (cases "check_drowsiness cfg now s (face_ear lm)")
  obtain s2 evs2 r2 where p: "process_frame cfg s1 f = (s2, evs2, r2)"
    by (cases "process_frame cfg s1 f")
  from Cons.prems have e: "s' = s2" "evs = ev @ evs2"
    by (simp_all add: a c p process_frame_Cons)
  from Cons.IH [OF p] check_drowsiness_detections [OF c] e show ?case by simp
qed

lemma detection_loop_Cons:
  "detection_loop cfg s (f # fs) =
     (fst (detection_loop cfg
             (fst (process_frame cfg (s\<lparr>total_frames := total_frames s + 1\<rparr>) f)) fs),
      fst (snd (process_frame cfg (s\<lparr>total_frames := total_frames s + 1\<rparr>) f))
        # snd (detection_loop cfg
                 (fst (process_frame cfg (s\<lparr>total_frames := total_frames s + 1\<rparr>) f)) fs))"
proof -
  obtain s2 ev r where p: "process_frame cfg (s\<lparr>total_frames := total_frames s + 1\<rparr>) f = (s2, ev, r)"
    by (cases "process_frame cfg (s\<lparr>total_frames := total_frames s + 1\<rparr>) f")
  with process_frame_no_exn [of cfg "s\<lparr>total_frames := total_frames s + 1\<rparr>" f]
  have "r = None" by simp
  then show ?thesis by (simp add: p Let_def split: prod.splits)
qed

declare detection_loop.simps(2) [simp del]

lemma detection_loop_ok:
  "state_ok cfg s \<Longrightarrow> state_ok cfg (fst (detection_loop cfg s fs))"
proof (induction fs arbitrary: s)
  case Nil
  then show ?case by simp
next
  case (Cons f fs)
  let ?s1 = "s\<lparr>total_frames := total_frames s + 1\<rparr>"
  have "state_ok cfg ?s1" using Cons.prems by (simp add: state_ok_def)
  then have "state_ok cfg (fst (process_frame cfg ?s1 f))"
    using process_frame_ok [of cfg ?s1 f] by (cases "process_frame cfg ?s1 f") auto
  then show ?case using Cons.IH by (simp add: detection_loop_Cons)
qed

lemma detection_loop_counts:
  "drowsy_detections (fst (detection_loop cfg s fs))
     = drowsy_detections s + int (onsets (snd (detection_loop cfg s fs)))
   \<and> total_frames (fst (detection_loop cfg s fs)) = total_frames s + int (length fs)
   \<and> session_start_time (fst (detection_loop cfg s fs)) = session_start_time s
   \<and> length (snd (detection_loop cfg s fs)) = length fs"
proof (induction fs arbitrary: s)
  case Nil
  then show ?case by (simp add: onsets_def)
next
  case (Cons f fs)
  let ?s1 = "s\<lparr>total_frames := total_frames s + 1\<rparr>"
  obtain s2 ev r where p: "process_frame cfg ?s1 f = (s2, ev, r)"
    by (cases "process_frame cfg ?s1 f")
  from process_frame_detections [OF p] Cons.IH [of s2] show ?case
    by (simp add: detection_loop_Cons p onsets_def)
qed



lemma process_frame_Cons_proj:
  "process_frame cfg s ((lm, now) # faces) =
     (fst (process_frame cfg (fst (check_drowsiness cfg now s (face_ear lm))) faces),
      snd (check_drowsiness cfg now s (face_ear lm))
        @ fst (snd (process_frame cfg (fst (check_drowsiness cfg now s (face_ear lm))) faces)),
      snd (snd (process_frame cfg (fst (check_drowsiness cfg now s (face_ear lm))) faces)))"
  by (simp add: process_frame_Cons split: prod.splits)

lemma onsets_simps:
  "onsets [] = 0"
  "onsets (e # evs) = length e + onsets evs"
  by (simp_all add: onsets_def)

lemma upt_0_Suc: "[0..<Suc n] = 0 # map Suc [0..<n]"
  by (simp only: upt_conv_Cons [OF zero_less_Suc] map_Suc_upt)

lemma process_frame_low_drowsy:
  "frame_low cfg f \<Longrightarrow> is_drowsy s \<Longrightarrow>
     fst (snd (process_frame cfg s f)) = [] \<and> is_drowsy (fst (process_frame cfg s f))"
proof (induction f arbitrary: s)
  case Nil
  then show ?case by simp
next
  case (Cons a f)
  obtain lm now where a: "a = (lm, now)" by (cases a)
  from Cons.prems have low: "np_lt (face_ear lm) (EAR_THRESHOLD cfg)" and rest: "frame_low cfg f"
    by (simp_all add: frame_low_def face_low_def a)
  let ?s1 = "s\<lparr>eye_closed_frames := eye_closed_frames s + 1\<rparr>"
  have c: "check_drowsiness cfg now s (face_ear lm) = (?s1, [])"
    using low Cons.prems(2) by (simp add: check_drowsiness_low)
  have "is_drowsy ?s1" using Cons.prems(2) by simp
  from Cons.IH [OF rest this] show ?case
    by (simp add: a process_frame_Cons_proj c)
qed

lemma check_drowsiness_low_onset:
  assumes "np_lt ear (EAR_THRESHOLD cfg)"
  shows "length (snd (check_drowsiness cfg now s ear)) \<le> 1"
    and "snd (check_drowsiness cfg now s ear) \<noteq> [] \<Longrightarrow> is_drowsy (fst (check_drowsiness cfg now s ear))"
  using assms by (auto simp: check_drowsiness_low handle_fields split: if_splits)

lemma process_frame_low_once:
  "frame_low cfg f \<Longrightarrow>
     length (fst (snd (process_frame cfg s f))) \<le> 1
     \<and> (fst (snd (process_frame cfg s f)) \<noteq> [] \<longrightarrow> is_drowsy (fst (process_frame cfg s f)))"
proof (induction f arbitrary: s)
  case Nil
  then show ?case by simp
next
  case (Cons a f)
  obtain lm now where a: "a = (lm, now)" by (cases a)
  from Cons.prems have low: "np_lt (face_ear lm) (EAR_THRESHOLD cfg)" and rest: "frame_low cfg f"
    by (simp_all add: frame_low_def face_low_def a)
  obtain s1 ev where c: "check_drowsiness cfg now s (face_ear lm) = (s1, ev)"
    by (cases "check_drowsiness cfg now s (face_ear lm)")
  from check_drowsiness_low_onset [OF low, of now s] c
  have ev: "length ev \<le> 1" "ev \<noteq> [] \<Longrightarrow> is_drowsy s1" by simp_all
  show ?case
  proof (cases "ev = []")
    case True
    with Cons.IH [OF rest, of s1] show ?thesis
      by (simp add: a process_frame_Cons_proj c)
  next
    case False
    with ev have "is_drowsy s1" by simp
    from process_frame_low_drowsy [OF rest this] ev(1) show ?thesis
      by (simp add: a process_frame_Cons_proj c)
  qed
qed

lemma detection_loop_low_drowsy:
  "list_all (frame_low cfg) fs \<Longrightarrow> is_drowsy s \<Longrightarrow>
     onsets (snd (detection_loop cfg s fs)) = 0 \<and> is_drowsy (fst (detection_loop cfg s fs))"
proof (induction fs arbitrary: s)
  case Nil
  then show ?case by (simp add: onsets_simps)
next
  case (Cons f fs)
  let ?s1 = "s\<lparr>total_frames := total_frames s + 1\<rparr>"
  from Cons.prems have f: "frame_low cfg f" and rest: "list_all (frame_low cfg) fs" by simp_all
  have "is_drowsy ?s1" using Cons.prems(2) by simp
  from process_frame_low_drowsy [OF f this]
  have p: "fst (snd (process_frame cfg ?s1 f)) = []" "is_drowsy (fst (process_frame cfg ?s1 f))"
    by simp_all
  from Cons.IH [OF rest p(2)] p(1) show ?case
    by (simp add: detection_loop_Cons onsets_simps)
qed

lemma detection_loop_low_once:
  "list_all (frame_low cfg) fs \<Longrightarrow> onsets (snd (detection_loop cfg s fs)) \<le> 1"
proof (induction fs arbitrary: s)
  case Nil
  then show ?case by (simp add: onsets_simps)
next
  case (Cons f fs)
  let ?s1 = "s\<lparr>total_frames := total_frames s + 1\<rparr>"
  let ?p = "process_frame cfg ?s1 f"
  from Cons.prems have f: "frame_low cfg f" and rest: "list_all (frame_low cfg) fs" by simp_all
  from process_frame_low_once [OF f, of ?s1]
  have p: "length (fst (snd ?p)) \<le> 1" "fst (snd ?p) \<noteq> [] \<Longrightarrow> is_drowsy (fst ?p)"
    by simp_all
  show ?case
  proof (cases "fst (snd ?p) = []")
    case True
    with Cons.IH [OF rest, of "fst ?p"] show ?thesis
      by (simp add: detection_loop_Cons onsets_simps)
  next
    case False
    with p(2) have "is_drowsy (fst ?p)" by simp
    from detection_loop_low_drowsy [OF rest this] p(1) show ?thesis
      by (simp add: detection_loop_Cons onsets_simps)
  qed
qed

lemma process_frame_single:
  "process_frame cfg s [(lm, now)] =
     (fst (check_drowsiness cfg now s (face_ear lm)),
      snd (check_drowsiness cfg now s (face_ear lm)), None)"
  by (simp add: process_frame_Cons split: prod.splits)

lemma onset_position:
  "list_all (single_low cfg) fs \<Longrightarrow>
   (is_drowsy s \<longleftrightarrow> DROWSINESS_FRAMES_THRESHOLD cfg \<le> eye_closed_frames s) \<Longrightarrow>
     map length (snd (detection_loop cfg s fs)) =
       map (\<lambda>i. if eye_closed_frames s + int i + 1 = DROWSINESS_FRAMES_THRESHOLD cfg
                 then 1 else 0) [0..<length fs]"
proof (induction fs arbitrary: s)
  case Nil
  then show ?case by simp
next
  case (Cons f fs)
  let ?s1 = "s\<lparr>total_frames := total_frames s + 1\<rparr>"
  let ?FT = "DROWSINESS_FRAMES_THRESHOLD cfg"
  from Cons.prems(1) have f: "single_low cfg f" and rest: "list_all (single_low cfg) fs"
    by simp_all
  from f obtain lm now where fe: "f = [(lm, now)]"
    by (cases f) (auto simp: single_low_def)
  from f fe have low: "np_lt (face_ear lm) (EAR_THRESHOLD cfg)"
    by (simp add: single_low_def frame_low_def face_low_def)
  let ?c = "check_drowsiness cfg now ?s1 (face_ear lm)"
  have c1: "eye_closed_frames (fst ?c) = eye_closed_frames s + 1"
    by (simp add: check_drowsiness_low [OF low] handle_fields)
  have c2: "is_drowsy (fst ?c) \<longleftrightarrow> ?FT \<le> eye_closed_frames s + 1"
    using Cons.prems(2) by (auto simp: check_drowsiness_low [OF low] handle_fields)
  have c3: "length (snd ?c) = (if eye_closed_frames s + 1 = ?FT then 1 else 0)"
    using Cons.prems(2) by (auto simp: check_drowsiness_low [OF low])
  have ih: "map length (snd (detection_loop cfg (fst ?c) fs)) =
       map (\<lambda>i. if eye_closed_frames s + 1 + int i + 1 = ?FT then 1 else 0) [0..<length fs]"
    using Cons.IH [OF rest, of "fst ?c"] c1 c2 by simp
  have u: "[0..<length (f # fs)] = 0 # map Suc [0..<length fs]"
    using upt_0_Suc [of "length fs"] by simp
  have lhs: "map length (snd (detection_loop cfg s (f # fs))) =
      (if eye_closed_frames s + 1 = ?FT then 1 else 0)
        # map (\<lambda>i. if eye_closed_frames s + 1 + int i + 1 = ?FT then 1 else 0) [0..<length fs]"
    by (simp only: detection_loop_Cons fe process_frame_single fst_conv snd_conv list.map c3 ih)
  have rhs: "map (\<lambda>i. if eye_closed_frames s + int i + 1 = ?FT then 1 else 0)
               (0 # map Suc [0..<length fs]) =
      (if eye_closed_frames s + 1 = ?FT then 1 else 0)
        # map (\<lambda>i. if eye_closed_frames s + 1 + int i + 1 = ?FT then 1 else (0::nat)) [0..<length fs]"
    by (simp add: o_def algebra_simps)
  show ?case
    unfolding u lhs rhs ..
qed

lemma euclidean_vertical: "euclidean (x, a) (x, b) = \<bar>real_of_int (a - b)\<bar>"
  by (simp add: euclidean_def)

lemma euclidean_horizontal: "euclidean (a, y) (b, y) = \<bar>real_of_int (a - b)\<bar>"
  by (simp add: euclidean_def)

lemma face_ear_axis:
  "face_ear (axis_face a b c) =
     np_truediv (F64 (\<bar>real_of_int a\<bar> + \<bar>real_of_int b\<bar>)) (F64 (2 * \<bar>real_of_int c\<bar>))"
proof -
  have "np_truediv (np_add v v) (F64 2) = v"
    if "v = np_truediv (F64 p) (F64 q)" "0 \<le> p" "0 \<le> q" for v p q
    using that by (cases "q = 0"; cases "p = 0") auto
  then show ?thesis
    by (simp add: face_ear_def current_ear_of_total axis_face_def euclidean_vertical euclidean_horizontal)
qed

lemma check_drowsiness_fields:
  "eye_closed_frames (fst (check_drowsiness cfg now s ear)) =
     (if np_lt ear (EAR_THRESHOLD cfg) then eye_closed_frames s + 1 else 0)"
  "is_drowsy (fst (check_drowsiness cfg now s ear)) =
     (np_lt ear (EAR_THRESHOLD cfg)
      \<and> (is_drowsy s \<or> DROWSINESS_FRAMES_THRESHOLD cfg \<le> eye_closed_frames s + 1))"
  "length (snd (check_drowsiness cfg now s ear)) =
     (if np_lt ear (EAR_THRESHOLD cfg) \<and> \<not> is_drowsy s
         \<and> DROWSINESS_FRAMES_THRESHOLD cfg \<le> eye_closed_frames s + 1 then 1 else 0)"
proof -
  show "eye_closed_frames (fst (check_drowsiness cfg now s ear)) =
     (if np_lt ear (EAR_THRESHOLD cfg) then eye_closed_frames s + 1 else 0)"
    by (cases "np_lt ear (EAR_THRESHOLD cfg)")
       (auto simp: check_drowsiness_low check_drowsiness_high handle_fields)
  show "is_drowsy (fst (check_drowsiness cfg now s ear)) =
     (np_lt ear (EAR_THRESHOLD cfg)
      \<and> (is_drowsy s \<or> DROWSINESS_FRAMES_THRESHOLD cfg \<le> eye_closed_frames s + 1))"
    by (cases "np_lt ear (EAR_THRESHOLD cfg)")
       (auto simp: check_drowsiness_low check_drowsiness_high handle_fields)
  show "length (snd (check_drowsiness cfg now s ear)) =
     (if np_lt ear (EAR_THRESHOLD cfg) \<and> \<not> is_drowsy s
         \<and> DROWSINESS_FRAMES_THRESHOLD cfg \<le> eye_closed_frames s + 1 then 1 else 0)"
    by (cases "np_lt ear (EAR_THRESHOLD cfg)")
       (auto simp: check_drowsiness_low check_drowsiness_high handle_fields)
qed


lemma detection_loop_append:
  "detection_loop cfg s (xs @ ys) =
     (fst (detection_loop cfg (fst (detection_loop cfg s xs)) ys),
      snd (detection_loop cfg s xs) @ snd (detection_loop cfg (fst (detection_loop cfg s xs)) ys))"
  by (induction xs arbitrary: s) (simp_all add: detection_loop_Cons)

lemma detection_loop_snoc_single:
  "eye_closed_frames (fst (detection_loop cfg s (xs @ [[(lm, now)]]))) =
     (if np_lt (face_ear lm) (EAR_THRESHOLD cfg)
      then eye_closed_frames (fst (detection_loop cfg s xs)) + 1 else 0)"
  "is_drowsy (fst (detection_loop cfg s (xs @ [[(lm, now)]]))) =
     (np_lt (face_ear lm) (EAR_THRESHOLD cfg)
      \<and> (is_drowsy (fst (detection_loop cfg s xs))
         \<or> DROWSINESS_FRAMES_THRESHOLD cfg \<le> eye_closed_frames (fst (detection_loop cfg s xs)) + 1))"
  "map length (snd (detection_loop cfg s (xs @ [[(lm, now)]]))) =
     map length (snd (detection_loop cfg s xs)) @
       [if np_lt (face_ear lm) (EAR_THRESHOLD cfg)
           \<and> \<not> is_drowsy (fst (detection_loop cfg s xs))
           \<and> DROWSINESS_FRAMES_THRESHOLD cfg \<le> eye_closed_frames (fst (detection_loop cfg s xs)) + 1
        then 1 else 0]"
  by (simp_all add: detection_loop_append detection_loop_Cons process_frame_single
        check_drowsiness_fields)

lemma single_low_axis:
  "single_low cfg [(axis_face a b c, t)] \<longleftrightarrow>
     np_lt (np_truediv (F64 (\<bar>real_of_int a\<bar> + \<bar>real_of_int b\<bar>)) (F64 (2 * \<bar>real_of_int c\<bar>)))
       (EAR_THRESHOLD cfg)"
  by (simp add: single_low_def frame_low_def face_low_def face_ear_axis)

lemma handle_total_frames_update:
  "handle_drowsiness_detection cfg t (s\<lparr>total_frames := k\<rparr>) =
     ((fst (handle_drowsiness_detection cfg t s))\<lparr>total_frames := k\<rparr>,
      snd (handle_drowsiness_detection cfg t s))"
  by (simp add: handle_drowsiness_detection_def Let_def split: prod.splits)

lemma check_total_frames_update:
  "check_drowsiness cfg now (s\<lparr>total_frames := k\<rparr>) ear =
     ((fst (check_drowsiness cfg now s ear))\<lparr>total_frames := k\<rparr>,
      snd (check_drowsiness cfg now s ear))"
proof (cases "np_lt ear (EAR_THRESHOLD cfg)")
  case True
  have u: "s\<lparr>total_frames := k, eye_closed_frames := eye_closed_frames s + 1, is_drowsy := True,
               drowsy_detections := drowsy_detections s + 1\<rparr>
         = s\<lparr>eye_closed_frames := eye_closed_frames s + 1, is_drowsy := True,
               drowsy_detections := drowsy_detections s + 1\<rparr>\<lparr>total_frames := k\<rparr>"
    by simp
  show ?thesis
    by (simp add: check_drowsiness_low [OF True] del: detector.update_convs)
       (simp only: u handle_total_frames_update fst_conv snd_conv, simp)
next
  case False
  then show ?thesis by (simp add: check_drowsiness_high)
qed

lemma process_frame_total_frames_update:
  "process_frame cfg (s\<lparr>total_frames := k\<rparr>) f =
     ((fst (process_frame cfg s f))\<lparr>total_frames := k\<rparr>, snd (process_frame cfg s f))"
proof (induction f arbitrary: s)
  case Nil
  show ?case by simp
next
  case (Cons a f)
  obtain lm now where a: "a = (lm, now)" by (cases a)
  show ?case
    unfolding a process_frame_Cons_proj [of cfg _ lm now f]
    by (simp add: check_total_frames_update Cons.IH)
qed

lemma process_frame_total_frames:
  "total_frames (fst (process_frame cfg s f)) = total_frames s"
  using process_frame_detections [of cfg s f] by (cases "process_frame cfg s f") simp

lemma detection_loop_total_frames_update:
  "detection_loop cfg (s\<lparr>total_frames := total_frames s + k\<rparr>) fs =
     ((fst (detection_loop cfg s fs))
        \<lparr>total_frames := total_frames (fst (detection_loop cfg s fs)) + k\<rparr>,
      snd (detection_loop cfg s fs))"
proof (induction fs arbitrary: s)
  case Nil
  show ?case by simp
next
  case (Cons f fs)
  let ?p = "process_frame cfg (s\<lparr>total_frames := total_frames s + 1\<rparr>) f"
  have tf: "total_frames (fst ?p) = total_frames s + 1"
    by (simp add: process_frame_total_frames)
  have p: "process_frame cfg (s\<lparr>total_frames := total_frames s + k + 1\<rparr>) f
      = ((fst ?p)\<lparr>total_frames := total_frames (fst ?p) + k\<rparr>, snd ?p)"
  proof -
    have a: "(s\<lparr>total_frames := total_frames s + 1\<rparr>)\<lparr>total_frames := total_frames s + k + 1\<rparr>
        = s\<lparr>total_frames := total_frames s + k + 1\<rparr>"
      by simp
    have b: "total_frames (fst ?p) + k = total_frames s + k + 1"
      using tf by simp
    show ?thesis
      unfolding b
      using process_frame_total_frames_update [where cfg = cfg and f = f
          and s = "s\<lparr>total_frames := total_frames s + 1\<rparr>" and k = "total_frames s + k + 1"]
      unfolding a .
  qed
  have q: "(s\<lparr>total_frames := total_frames s + k\<rparr>)
             \<lparr>total_frames := total_frames (s\<lparr>total_frames := total_frames s + k\<rparr>) + 1\<rparr>
           = s\<lparr>total_frames := total_frames s + k + 1\<rparr>"
    by simp
  show ?case
    unfolding detection_loop_Cons [of cfg "s\<lparr>total_frames := total_frames s + k\<rparr>"] q p
    by (simp add: detection_loop_Cons [of cfg s] Cons.IH)
qed

lemma handle_fired:
  "snd (handle_drowsiness_detection cfg now s) =
     (if now - last_alert_time s > real_of_int (AUDIO_ALERT_COOLDOWN cfg) then [Audio] else [])
     @ (if now - last_email_time s > real_of_int (EMAIL_ALERT_COOLDOWN cfg) then [Email] else [])"
  by (simp add: handle_drowsiness_detection_def Let_def split: prod.splits)

lemma handle_times:
  "last_alert_time (fst (handle_drowsiness_detection cfg now s)) =
     (if now - last_alert_time s > real_of_int (AUDIO_ALERT_COOLDOWN cfg) then now
      else last_alert_time s)"
  "last_email_time (fst (handle_drowsiness_detection cfg now s)) =
     (if now - last_email_time s > real_of_int (EMAIL_ALERT_COOLDOWN cfg) then now
      else last_email_time s)"
  by (simp_all add: handle_drowsiness_detection_def Let_def split: prod.splits)

lemma process_frame_append:
  "process_frame cfg s (xs @ ys) =
     (fst (process_frame cfg (fst (process_frame cfg s xs)) ys),
      fst (snd (process_frame cfg s xs)) @ fst (snd (process_frame cfg (fst (process_frame cfg s xs)) ys)),
      None)"
proof (induction xs arbitrary: s)
  case Nil
  show ?case using process_frame_no_exn [of cfg s ys]
    by (cases "process_frame cfg s ys") simp
next
  case (Cons a xs)
  obtain lm now where a: "a = (lm, now)" by (cases a)
  show ?case
    by (simp add: a process_frame_Cons_proj Cons.IH)
qed

lemma process_frame_low_count:
  "frame_low cfg f \<Longrightarrow>
     eye_closed_frames (fst (process_frame cfg s f)) = eye_closed_frames s + int (length f)"
proof (induction f arbitrary: s)
  case Nil
  show ?case by simp
next
  case (Cons a f)
  obtain lm now where a: "a = (lm, now)" by (cases a)
  from Cons.prems have low: "np_lt (face_ear lm) (EAR_THRESHOLD cfg)" and rest: "frame_low cfg f"
    by (simp_all add: frame_low_def face_low_def a)
  show ?case
    by (simp add: a process_frame_Cons_proj Cons.IH [OF rest] check_drowsiness_fields low)
qed


section \<open>The geometry evaluator\<close>

text \<open>
  Claim C6. For six landmark points whose corners \<open>p0\<close> and \<open>p3\<close> differ,
  \<^verbatim>\<open>calculate_ear\<close> returns \<open>(A + B) / (2 C)\<close> with \<open>A = dist(p1, p5)\<close>,
  \<open>B = dist(p2, p4)\<close>, \<open>C = dist(p0, p3)\<close> and \<open>dist\<close> the Euclidean distance; the
  value is a finite number, it is not negative, and the divisor is not zero. The
  function reads its argument only: its result is a function of the six points.
\<close>

theorem calculate_ear_formula:
  assumes "p0 \<noteq> p3"
  shows "calculate_ear [p0, p1, p2, p3, p4, p5] =
           Inr (F64 ((euclidean p1 p5 + euclidean p2 p4) / (2 * euclidean p0 p3)))
         \<and> 0 \<le> (euclidean p1 p5 + euclidean p2 p4) / (2 * euclidean p0 p3)
         \<and> euclidean p0 p3 \<noteq> 0
         \<and> euclidean (x, y) (u, v) = sqrt (real_of_int ((x - u)\<^sup>2 + (y - v)\<^sup>2))"
  using assms by (simp add: euclidean_eq_0_iff euclidean_nonneg) (simp add: euclidean_def)

theorem calculate_ear_formula_witness:
  "((0, 0) :: point) \<noteq> (10, 0)
   \<and> calculate_ear [(0, 0), (0, 3), (0, 3), (10, 0), (0, 0), (0, 0)] = Inr (F64 (3 / 10))"
  using calculate_ear_formula [of "(0, 0)" "(10, 0)" "(0, 3)" "(0, 0)" "(0, 3)" "(0, 0)"]
  by (simp add: euclidean_vertical euclidean_horizontal)

section \<open>The drowsiness state machine\<close>

text \<open>
  Claim C1. With \<^verbatim>\<open>EAR_THRESHOLD = 0.25\<close> and \<^verbatim>\<open>DROWSINESS_FRAMES_THRESHOLD = 3\<close>, a
  fresh detector that processes five frames with one face each, reading
  0.30, 0.20, 0.18, 0.19, 0.30, emits exactly one onset, in the fourth frame, where
  the counter reaches 3 (it is 2 and the state Alert after the third frame), and the
  state is Alert again after the fifth frame. In general, with a frame threshold of at
  least 1, a fresh detector fed frames with one below-threshold face each emits its
  onset in the frame whose number equals the threshold and in no other frame; and a
  run of below-threshold frames from any state emits at most one onset, none at all
  when the state is already Drowsy.
\<close>

theorem onset_edge_trigger:
  "(EAR_THRESHOLD cfg = F64 0.25 \<and> DROWSINESS_FRAMES_THRESHOLD cfg = 3
      \<and> face_ear la = F64 0.30 \<and> face_ear lb = F64 0.20 \<and> face_ear lc = F64 0.18
      \<and> face_ear ld = F64 0.19 \<and> face_ear le = F64 0.30
    \<longrightarrow> map length (snd (detection_loop cfg (init_detector tz)
            [[(la, ta)], [(lb, tb)], [(lc, tc)], [(ld, td)], [(le, te)]])) = [0, 0, 0, 1, 0]
        \<and> eye_closed_frames (fst (detection_loop cfg (init_detector tz)
            [[(la, ta)], [(lb, tb)], [(lc, tc)]])) = 2
        \<and> \<not> is_drowsy (fst (detection_loop cfg (init_detector tz)
            [[(la, ta)], [(lb, tb)], [(lc, tc)]]))
        \<and> eye_closed_frames (fst (detection_loop cfg (init_detector tz)
            [[(la, ta)], [(lb, tb)], [(lc, tc)], [(ld, td)]])) = 3
        \<and> is_drowsy (fst (detection_loop cfg (init_detector tz)
            [[(la, ta)], [(lb, tb)], [(lc, tc)], [(ld, td)]]))
        \<and> \<not> is_drowsy (fst (detection_loop cfg (init_detector tz)
            [[(la, ta)], [(lb, tb)], [(lc, tc)], [(ld, td)], [(le, te)]])))
   \<and> (1 \<le> DROWSINESS_FRAMES_THRESHOLD cfg' \<and> list_all (single_low cfg') fs
    \<longrightarrow> map length (snd (detection_loop cfg' (init_detector tz') fs)) =
          map (\<lambda>i. if int i + 1 = DROWSINESS_FRAMES_THRESHOLD cfg' then 1 else 0)
            [0..<length fs])
   \<and> (list_all (frame_low cfg'') gs
    \<longrightarrow> onsets (snd (detection_loop cfg'' s gs)) \<le> 1
        \<and> (is_drowsy s \<longrightarrow> onsets (snd (detection_loop cfg'' s gs)) = 0))"
proof (intro conjI)
  show "EAR_THRESHOLD cfg = F64 0.25 \<and> DROWSINESS_FRAMES_THRESHOLD cfg = 3
      \<and> face_ear la = F64 0.30 \<and> face_ear lb = F64 0.20 \<and> face_ear lc = F64 0.18
      \<and> face_ear ld = F64 0.19 \<and> face_ear le = F64 0.30
    \<longrightarrow> map length (snd (detection_loop cfg (init_detector tz)
            [[(la, ta)], [(lb, tb)], [(lc, tc)], [(ld, td)], [(le, te)]])) = [0, 0, 0, 1, 0]
        \<and> eye_closed_frames (fst (detection_loop cfg (init_detector tz)
            [[(la, ta)], [(lb, tb)], [(lc, tc)]])) = 2
        \<and> \<not> is_drowsy (fst (detection_loop cfg (init_detector tz)
            [[(la, ta)], [(lb, tb)], [(lc, tc)]]))
        \<and> eye_closed_frames (fst (detection_loop cfg (init_detector tz)
            [[(la, ta)], [(lb, tb)], [(lc, tc)], [(ld, td)]])) = 3
        \<and> is_drowsy (fst (detection_loop cfg (init_detector tz)
            [[(la, ta)], [(lb, tb)], [(lc, tc)], [(ld, td)]]))
        \<and> \<not> is_drowsy (fst (detection_loop cfg (init_detector tz)
            [[(la, ta)], [(lb, tb)], [(lc, tc)], [(ld, td)], [(le, te)]]))"
  proof
    assume h: "EAR_THRESHOLD cfg = F64 0.25 \<and> DROWSINESS_FRAMES_THRESHOLD cfg = 3
      \<and> face_ear la = F64 0.30 \<and> face_ear lb = F64 0.20 \<and> face_ear lc = F64 0.18
      \<and> face_ear ld = F64 0.19 \<and> face_ear le = F64 0.30"
    let ?i = "init_detector tz"
    let ?L = "detection_loop cfg ?i"
    have s0: "eye_closed_frames (fst (?L [])) = 0" "\<not> is_drowsy (fst (?L []))"
      "map length (snd (?L [])) = []"
      by (simp_all add: init_detector_def)
    have s1: "eye_closed_frames (fst (?L [[(la, ta)]])) = 0"
      "\<not> is_drowsy (fst (?L [[(la, ta)]]))"
      "map length (snd (?L [[(la, ta)]])) = [0]"
      using detection_loop_snoc_single [of cfg ?i "[]" la ta] s0 h by simp_all
    have s2: "eye_closed_frames (fst (?L [[(la, ta)], [(lb, tb)]])) = 1"
      "\<not> is_drowsy (fst (?L [[(la, ta)], [(lb, tb)]]))"
      "map length (snd (?L [[(la, ta)], [(lb, tb)]])) = [0, 0]"
      using detection_loop_snoc_single [of cfg ?i "[[(la, ta)]]" lb tb] s1 h by simp_all
    have s3: "eye_closed_frames (fst (?L [[(la, ta)], [(lb, tb)], [(lc, tc)]])) = 2"
      "\<not> is_drowsy (fst (?L [[(la, ta)], [(lb, tb)], [(lc, tc)]]))"
      "map length (snd (?L [[(la, ta)], [(lb, tb)], [(lc, tc)]])) = [0, 0, 0]"
      using detection_loop_snoc_single [of cfg ?i "[[(la, ta)], [(lb, tb)]]" lc tc] s2 h
      by simp_all
    have s4: "eye_closed_frames (fst (?L [[(la, ta)], [(lb, tb)], [(lc, tc)], [(ld, td)]])) = 3"
      "is_drowsy (fst (?L [[(la, ta)], [(lb, tb)], [(lc, tc)], [(ld, td)]]))"
      "map length (snd (?L [[(la, ta)], [(lb, tb)], [(lc, tc)], [(ld, td)]])) = [0, 0, 0, 1]"
      using detection_loop_snoc_single [of cfg ?i "[[(la, ta)], [(lb, tb)], [(lc, tc)]]" ld td]
        s3 h by simp_all
    have s5: "\<not> is_drowsy (fst (?L [[(la, ta)], [(lb, tb)], [(lc, tc)], [(ld, td)], [(le, te)]]))"
      "map length (snd (?L [[(la, ta)], [(lb, tb)], [(lc, tc)], [(ld, td)], [(le, te)]]))
         = [0, 0, 0, 1, 0]"
      using detection_loop_snoc_single
              [of cfg ?i "[[(la, ta)], [(lb, tb)], [(lc, tc)], [(ld, td)]]" le te] s4 h
      by simp_all
    from s3 s4 s5 show "map length (snd (detection_loop cfg (init_detector tz)
            [[(la, ta)], [(lb, tb)], [(lc, tc)], [(ld, td)], [(le, te)]])) = [0, 0, 0, 1, 0]
        \<and> eye_closed_frames (fst (detection_loop cfg (init_detector tz)
            [[(la, ta)], [(lb, tb)], [(lc, tc)]])) = 2
        \<and> \<not> is_drowsy (fst (detection_loop cfg (init_detector tz)
            [[(la, ta)], [(lb, tb)], [(lc, tc)]]))
        \<and> eye_closed_frames (fst (detection_loop cfg (init_detector tz)
            [[(la, ta)], [(lb, tb)], [(lc, tc)], [(ld, td)]])) = 3
        \<and> is_drowsy (fst (detection_loop cfg (init_detector tz)
            [[(la, ta)], [(lb, tb)], [(lc, tc)], [(ld, td)]]))
        \<and> \<not> is_drowsy (fst (detection_loop cfg (init_detector tz)
            [[(la, ta)], [(lb, tb)], [(lc, tc)], [(ld, td)], [(le, te)]]))"
      by simp
  qed
next
  show "1 \<le> DROWSINESS_FRAMES_THRESHOLD cfg' \<and> list_all (single_low cfg') fs
    \<longrightarrow> map length (snd (detection_loop cfg' (init_detector tz') fs)) =
          map (\<lambda>i. if int i + 1 = DROWSINESS_FRAMES_THRESHOLD cfg' then 1 else 0)
            [0..<length fs]"
  proof
    assume a: "1 \<le> DROWSINESS_FRAMES_THRESHOLD cfg' \<and> list_all (single_low cfg') fs"
    then have "is_drowsy (init_detector tz')
        \<longleftrightarrow> DROWSINESS_FRAMES_THRESHOLD cfg' \<le> eye_closed_frames (init_detector tz')"
      by (simp add: init_detector_def)
    from onset_position [OF conjunct2 [OF a] this]
    show "map length (snd (detection_loop cfg' (init_detector tz') fs)) =
            map (\<lambda>i. if int i + 1 = DROWSINESS_FRAMES_THRESHOLD cfg' then 1 else 0)
              [0..<length fs]"
      by (simp add: init_detector_def)
  qed
next
  show "list_all (frame_low cfg'') gs
    \<longrightarrow> onsets (snd (detection_loop cfg'' s gs)) \<le> 1
        \<and> (is_drowsy s \<longrightarrow> onsets (snd (detection_loop cfg'' s gs)) = 0)"
    using detection_loop_low_once [of cfg'' gs s] detection_loop_low_drowsy [of cfg'' gs s]
    by blast
qed

theorem onset_edge_trigger_witness:
  "EAR_THRESHOLD scenario_config = F64 0.25
   \<and> DROWSINESS_FRAMES_THRESHOLD scenario_config = 3
   \<and> face_ear (axis_face 3 3 10) = F64 0.30 \<and> face_ear (axis_face 2 2 10) = F64 0.20
   \<and> face_ear (axis_face 9 9 50) = F64 0.18 \<and> face_ear (axis_face 9 10 50) = F64 0.19
   \<and> map length (snd (detection_loop scenario_config (init_detector 0)
        [[(axis_face 3 3 10, 1)], [(axis_face 2 2 10, 2)], [(axis_face 9 9 50, 3)],
         [(axis_face 9 10 50, 4)], [(axis_face 3 3 10, 5)]])) = [0, 0, 0, 1, 0]
   \<and> list_all (single_low scenario_config)
        [[(axis_face 0 0 1, 1)], [(axis_face 0 0 1, 2)], [(axis_face 0 0 1, 3)],
         [(axis_face 0 0 1, 4)]]
   \<and> map length (snd (detection_loop scenario_config (init_detector 0)
        [[(axis_face 0 0 1, 1)], [(axis_face 0 0 1, 2)], [(axis_face 0 0 1, 3)],
         [(axis_face 0 0 1, 4)]])) = [0, 0, 1, 0]
   \<and> list_all (frame_low scenario_config) [[(axis_face 0 0 1, 1)], [(axis_face 0 0 1, 2)]]
   \<and> is_drowsy ((init_detector 0)\<lparr>is_drowsy := True\<rparr>)
   \<and> onsets (snd (detection_loop scenario_config ((init_detector 0)\<lparr>is_drowsy := True\<rparr>)
        [[(axis_face 0 0 1, 1)], [(axis_face 0 0 1, 2)]])) = 0"
  using onset_edge_trigger [where cfg = scenario_config and tz = 0
      and la = "axis_face 3 3 10" and ta = 1 and lb = "axis_face 2 2 10" and tb = 2
      and lc = "axis_face 9 9 50" and tc = 3 and ld = "axis_face 9 10 50" and td = 4
      and le = "axis_face 3 3 10" and te = 5
      and cfg' = scenario_config and tz' = 0
      and fs = "[[(axis_face 0 0 1, 1)], [(axis_face 0 0 1, 2)], [(axis_face 0 0 1, 3)],
         [(axis_face 0 0 1, 4)]]"
      and cfg'' = scenario_config and s = "(init_detector 0)\<lparr>is_drowsy := True\<rparr>"
      and gs = "[[(axis_face 0 0 1, 1)], [(axis_face 0 0 1, 2)]]"]
  by (simp add: scenario_config_def face_ear_axis single_low_axis frame_low_def face_low_def
        upt_rec)

text \<open>
  Claim C2. A frame without a detected face leaves the whole detector state as it is
  (so the counter \<^verbatim>\<open>eye_closed_frames\<close> and \<^verbatim>\<open>is_drowsy\<close> in particular), emits no
  event and raises nothing. Putting such a frame anywhere into a session changes
  neither the counter, nor the drowsy flag, nor the events of any other frame: the
  final state differs in \<^verbatim>\<open>total_frames\<close> only, which the loop counts one higher.
\<close>

theorem no_face_frame:
  "process_frame cfg s [] = (s, [], None)
   \<and> fst (detection_loop cfg s (xs @ [] # ys)) =
       (fst (detection_loop cfg s (xs @ ys)))
         \<lparr>total_frames := total_frames (fst (detection_loop cfg s (xs @ ys))) + 1\<rparr>
   \<and> eye_closed_frames (fst (detection_loop cfg s (xs @ [] # ys))) =
       eye_closed_frames (fst (detection_loop cfg s (xs @ ys)))
   \<and> is_drowsy (fst (detection_loop cfg s (xs @ [] # ys))) =
       is_drowsy (fst (detection_loop cfg s (xs @ ys)))
   \<and> snd (detection_loop cfg s (xs @ [] # ys)) =
       snd (detection_loop cfg s xs)
         @ [] # snd (detection_loop cfg (fst (detection_loop cfg s xs)) ys)
   \<and> concat (snd (detection_loop cfg s (xs @ [] # ys))) =
       concat (snd (detection_loop cfg s (xs @ ys)))"
proof -
  let ?m = "fst (detection_loop cfg s xs)"
  have e: "detection_loop cfg ?m ([] # ys) =
      ((fst (detection_loop cfg ?m ys))
          \<lparr>total_frames := total_frames (fst (detection_loop cfg ?m ys)) + 1\<rparr>,
       [] # snd (detection_loop cfg ?m ys))"
    using detection_loop_total_frames_update [where cfg = cfg and s = ?m and k = 1 and fs = ys]
    by (simp add: detection_loop_Cons)
  show ?thesis
    by (simp add: detection_loop_append e)
qed

text \<open>
  Claim C5. In every state a fresh detector reaches by processing any sequence of
  frames under a fixed configuration, \<^verbatim>\<open>is_drowsy\<close> implies that \<^verbatim>\<open>eye_closed_frames\<close>
  is at least \<^verbatim>\<open>DROWSINESS_FRAMES_THRESHOLD\<close>, and \<^verbatim>\<open>eye_closed_frames\<close> is not
  negative; and a continuous run of below-threshold frames from such a state sets
  \<^verbatim>\<open>is_drowsy\<close> (emits an onset) at most once.
\<close>

theorem detection_state_invariant:
  "(is_drowsy (fst (detection_loop cfg (init_detector tz) fs))
      \<longrightarrow> DROWSINESS_FRAMES_THRESHOLD cfg
            \<le> eye_closed_frames (fst (detection_loop cfg (init_detector tz) fs)))
   \<and> 0 \<le> eye_closed_frames (fst (detection_loop cfg (init_detector tz) fs))
   \<and> (list_all (frame_low cfg) gs
      \<longrightarrow> onsets (snd (detection_loop cfg (fst (detection_loop cfg (init_detector tz) fs)) gs))
            \<le> 1)"
proof -
  have "state_ok cfg (init_detector tz)"
    by (simp add: state_ok_def init_detector_def)
  then have "state_ok cfg (fst (detection_loop cfg (init_detector tz) fs))"
    by (rule detection_loop_ok)
  then show ?thesis
    using detection_loop_low_once [of cfg gs "fst (detection_loop cfg (init_detector tz) fs)"]
    by (simp add: state_ok_def)
qed

theorem detection_state_invariant_witness:
  "is_drowsy (fst (detection_loop scenario_config (init_detector 0)
      [[(axis_face 0 0 1, 1)], [(axis_face 0 0 1, 2)], [(axis_face 0 0 1, 3)]]))
   \<and> eye_closed_frames (fst (detection_loop scenario_config (init_detector 0)
      [[(axis_face 0 0 1, 1)], [(axis_face 0 0 1, 2)], [(axis_face 0 0 1, 3)]])) = 3
   \<and> DROWSINESS_FRAMES_THRESHOLD scenario_config = 3
   \<and> list_all (frame_low scenario_config) [[(axis_face 0 0 1, 4)], [(axis_face 0 0 1, 5)]]
   \<and> onsets (snd (detection_loop scenario_config
        (fst (detection_loop scenario_config (init_detector 0)
           [[(axis_face 0 0 1, 1)], [(axis_face 0 0 1, 2)], [(axis_face 0 0 1, 3)]]))
        [[(axis_face 0 0 1, 4)], [(axis_face 0 0 1, 5)]])) \<le> 1"
proof -
  have low: "np_lt (face_ear (axis_face 0 0 1)) (EAR_THRESHOLD scenario_config)"
    by (simp add: face_ear_axis scenario_config_def)
  let ?L = "detection_loop scenario_config (init_detector 0)"
  have s1: "eye_closed_frames (fst (?L [[(axis_face 0 0 1, 1)]])) = 1"
    "\<not> is_drowsy (fst (?L [[(axis_face 0 0 1, 1)]]))"
    using detection_loop_snoc_single(1,2) [of scenario_config "init_detector 0" "[]" "axis_face 0 0 1" 1] low
    by (simp_all add: init_detector_def scenario_config_def)
  have s2: "eye_closed_frames (fst (?L [[(axis_face 0 0 1, 1)], [(axis_face 0 0 1, 2)]])) = 2"
    "\<not> is_drowsy (fst (?L [[(axis_face 0 0 1, 1)], [(axis_face 0 0 1, 2)]]))"
    using detection_loop_snoc_single(1,2) [of scenario_config "init_detector 0"
        "[[(axis_face 0 0 1, 1)]]" "axis_face 0 0 1" 2] low s1
    by (simp_all add: scenario_config_def)
  have s3: "eye_closed_frames (fst (?L [[(axis_face 0 0 1, 1)], [(axis_face 0 0 1, 2)],
        [(axis_face 0 0 1, 3)]])) = 3"
    "is_drowsy (fst (?L [[(axis_face 0 0 1, 1)], [(axis_face 0 0 1, 2)], [(axis_face 0 0 1, 3)]]))"
    using detection_loop_snoc_single(1,2) [of scenario_config "init_detector 0"
        "[[(axis_face 0 0 1, 1)], [(axis_face 0 0 1, 2)]]" "axis_face 0 0 1" 3] low s2
    by (simp_all add: scenario_config_def)
  have g: "list_all (frame_low scenario_config) [[(axis_face 0 0 1, 4)], [(axis_face 0 0 1, 5)]]"
    using low by (simp add: frame_low_def face_low_def)
  have c: "DROWSINESS_FRAMES_THRESHOLD scenario_config = 3"
    by (simp add: scenario_config_def)
  from detection_state_invariant [of scenario_config 0
      "[[(axis_face 0 0 1, 1)], [(axis_face 0 0 1, 2)], [(axis_face 0 0 1, 3)]]"
      "[[(axis_face 0 0 1, 4)], [(axis_face 0 0 1, 5)]]"] s3 g c
  show ?thesis by simp
qed

text \<open>
  Claim C10. One step of the state machine raises \<^verbatim>\<open>drowsy_detections\<close> by exactly 1
  when it takes the state from Alert to Drowsy, which is also exactly when it emits an
  onset and runs the alert dispatch, and leaves it unchanged otherwise; the dispatch
  itself does not write it. So over a session the counter grows by the number of
  onsets emitted, never decreases, and for a fresh detector equals that number.
\<close>

theorem detections_counter:
  "drowsy_detections (fst (check_drowsiness cfg now s ear)) =
     drowsy_detections s
       + (if \<not> is_drowsy s \<and> is_drowsy (fst (check_drowsiness cfg now s ear)) then 1 else 0)
   \<and> snd (check_drowsiness cfg now s ear) =
       (if \<not> is_drowsy s \<and> is_drowsy (fst (check_drowsiness cfg now s ear))
        then [DrowsyOnset (snd (handle_drowsiness_detection cfg now
                (s\<lparr>eye_closed_frames := eye_closed_frames s + 1, is_drowsy := True,
                   drowsy_detections := drowsy_detections s + 1\<rparr>)))]
        else [])
   \<and> drowsy_detections (fst (handle_drowsiness_detection cfg now s)) = drowsy_detections s
   \<and> drowsy_detections (fst (detection_loop cfg s fs)) =
       drowsy_detections s + int (onsets (snd (detection_loop cfg s fs)))
   \<and> drowsy_detections s \<le> drowsy_detections (fst (detection_loop cfg s fs))
   \<and> drowsy_detections (fst (detection_loop cfg (init_detector tz) fs)) =
       int (onsets (snd (detection_loop cfg (init_detector tz) fs)))"
proof (intro conjI)
  show "drowsy_detections (fst (check_drowsiness cfg now s ear)) =
     drowsy_detections s
       + (if \<not> is_drowsy s \<and> is_drowsy (fst (check_drowsiness cfg now s ear)) then 1 else 0)"
    by (cases "np_lt ear (EAR_THRESHOLD cfg)")
       (auto simp: check_drowsiness_low check_drowsiness_high handle_fields)
  show "snd (check_drowsiness cfg now s ear) =
       (if \<not> is_drowsy s \<and> is_drowsy (fst (check_drowsiness cfg now s ear))
        then [DrowsyOnset (snd (handle_drowsiness_detection cfg now
                (s\<lparr>eye_closed_frames := eye_closed_frames s + 1, is_drowsy := True,
                   drowsy_detections := drowsy_detections s + 1\<rparr>)))]
        else [])"
    by (cases "np_lt ear (EAR_THRESHOLD cfg)")
       (auto simp: check_drowsiness_low check_drowsiness_high handle_fields)
  show "drowsy_detections (fst (handle_drowsiness_detection cfg now s)) = drowsy_detections s"
    by (simp add: handle_fields)
  show c: "drowsy_detections (fst (detection_loop cfg s fs)) =
       drowsy_detections s + int (onsets (snd (detection_loop cfg s fs)))" for s
    using detection_loop_counts [of cfg s fs] by simp
  then show "drowsy_detections s \<le> drowsy_detections (fst (detection_loop cfg s fs))"
    by simp
  show "drowsy_detections (fst (detection_loop cfg (init_detector tz) fs)) =
       int (onsets (snd (detection_loop cfg (init_detector tz) fs)))"
    using c [of "init_detector tz"] by (simp add: init_detector_def)
qed

theorem detections_counter_witness:
  "\<not> is_drowsy ((init_detector 0)\<lparr>eye_closed_frames := 2\<rparr>)
   \<and> is_drowsy (fst (check_drowsiness scenario_config 100
        ((init_detector 0)\<lparr>eye_closed_frames := 2\<rparr>) (F64 0)))
   \<and> drowsy_detections (fst (check_drowsiness scenario_config 100
        ((init_detector 0)\<lparr>eye_closed_frames := 2\<rparr>) (F64 0))) = 1"
  using detections_counter [of scenario_config 100 "(init_detector 0)\<lparr>eye_closed_frames := 2\<rparr>"
      "F64 0" "[]" 0]
  by (simp add: check_drowsiness_fields scenario_config_def init_detector_def)

section \<open>The alert dispatcher\<close>

text \<open>
  Claim C3. When the onset handler runs at time \<open>now\<close>, the audio channel is
  dispatched if and only if \<open>now - last_alert_time\<close> exceeds the audio cooldown, and the
  email channel if and only if \<open>now - last_email_time\<close> exceeds the email cooldown, each
  on its own; a dispatched channel has its timestamp set to \<open>now\<close> in the state the
  handler returns, the other keeps its timestamp. With cooldowns of 5 and 60 seconds
  and both channels ready at the first onset (as for a fresh detector at any clock
  reading above 60), two onsets 10 seconds apart dispatch audio and email at the first
  and audio only at the second.
\<close>

theorem alert_cooldowns:
  "(Audio \<in> set (snd (handle_drowsiness_detection cfg now s))
      \<longleftrightarrow> now - last_alert_time s > real_of_int (AUDIO_ALERT_COOLDOWN cfg))
   \<and> (Email \<in> set (snd (handle_drowsiness_detection cfg now s))
      \<longleftrightarrow> now - last_email_time s > real_of_int (EMAIL_ALERT_COOLDOWN cfg))
   \<and> last_alert_time (fst (handle_drowsiness_detection cfg now s)) =
       (if Audio \<in> set (snd (handle_drowsiness_detection cfg now s)) then now
        else last_alert_time s)
   \<and> last_email_time (fst (handle_drowsiness_detection cfg now s)) =
       (if Email \<in> set (snd (handle_drowsiness_detection cfg now s)) then now
        else last_email_time s)
   \<and> (AUDIO_ALERT_COOLDOWN cfg = 5 \<and> EMAIL_ALERT_COOLDOWN cfg = 60
       \<and> t - last_alert_time s > 5 \<and> t - last_email_time s > 60
      \<longrightarrow> snd (handle_drowsiness_detection cfg t s) = [Audio, Email]
          \<and> snd (handle_drowsiness_detection cfg (t + 10)
                 (fst (handle_drowsiness_detection cfg t s))) = [Audio])
   \<and> (AUDIO_ALERT_COOLDOWN cfg = 5 \<and> EMAIL_ALERT_COOLDOWN cfg = 60 \<and> 60 < t
      \<longrightarrow> snd (handle_drowsiness_detection cfg t (init_detector tz)) = [Audio, Email]
          \<and> snd (handle_drowsiness_detection cfg (t + 10)
                 (fst (handle_drowsiness_detection cfg t (init_detector tz)))) = [Audio])"
  by (simp add: handle_fired handle_times init_detector_def)

theorem alert_cooldowns_witness:
  "AUDIO_ALERT_COOLDOWN default_config = 5 \<and> EMAIL_ALERT_COOLDOWN default_config = 60
   \<and> (1000::real) - last_alert_time (init_detector 0) > 5
   \<and> (1000::real) - last_email_time (init_detector 0) > 60
   \<and> snd (handle_drowsiness_detection default_config 1000 (init_detector 0)) = [Audio, Email]
   \<and> snd (handle_drowsiness_detection default_config 1010
            (fst (handle_drowsiness_detection default_config 1000 (init_detector 0)))) = [Audio]"
  using alert_cooldowns [of default_config 1000 "init_detector 0" 1000 0]
  by (simp add: default_config_def init_detector_def)

section \<open>Degenerate landmarks\<close>

text \<open>
  Claim C4. For six landmark points whose corners coincide, \<^verbatim>\<open>calculate_ear\<close> raises
  nothing: the numpy division gives infinity, or NaN when the lids coincide too, and
  neither compares below any threshold. A face with such an eye is processed without an
  exception and without an onset; its reading takes the branch of an open eye (counter
  0, state Alert).
\<close>

theorem degenerate_eye:
  "(p0 = p3 \<longrightarrow>
      calculate_ear [p0, p1, p2, p3, p4, p5] =
        Inr (if euclidean p1 p5 + euclidean p2 p4 = 0 then NaN else PosInf)
      \<and> \<not> np_lt (if euclidean p1 p5 + euclidean p2 p4 = 0 then NaN else PosInf) thr)
   \<and> (lm 36 = lm 39 \<or> lm 42 = lm 45 \<longrightarrow>
      current_ear_of lm = Inr (face_ear lm)
      \<and> (face_ear lm = PosInf \<or> face_ear lm = NaN)
      \<and> \<not> np_lt (face_ear lm) (EAR_THRESHOLD cfg)
      \<and> process_frame cfg s [(lm, now)] =
          (s\<lparr>eye_closed_frames := 0, is_drowsy := False\<rparr>, [], None))"
proof (intro conjI impI)
  assume "p0 = p3"
  then have c: "euclidean p0 p3 = 0" by (simp add: euclidean_eq_0_iff)
  have "0 \<le> euclidean p1 p5 + euclidean p2 p4" by (simp add: euclidean_nonneg)
  then show "calculate_ear [p0, p1, p2, p3, p4, p5] =
        Inr (if euclidean p1 p5 + euclidean p2 p4 = 0 then NaN else PosInf)"
    by (simp add: c)
  show "\<not> np_lt (if euclidean p1 p5 + euclidean p2 p4 = 0 then NaN else PosInf) thr"
    by (cases thr) simp_all
next
  assume d: "lm 36 = lm 39 \<or> lm 42 = lm 45"
  show "current_ear_of lm = Inr (face_ear lm)" by (rule current_ear_of_face_ear)
  define l where "l = np_truediv (F64 (euclidean (lm 37) (lm 41) + euclidean (lm 38) (lm 40)))
                           (F64 (2 * euclidean (lm 36) (lm 39)))"
  define r where "r = np_truediv (F64 (euclidean (lm 43) (lm 47) + euclidean (lm 44) (lm 46)))
                           (F64 (2 * euclidean (lm 42) (lm 45)))"
  have fe: "face_ear lm = np_truediv (np_add l r) (F64 2)"
    by (simp add: face_ear_def current_ear_of_total l_def r_def)
  have nn: "0 \<le> euclidean (lm 37) (lm 41) + euclidean (lm 38) (lm 40)"
    "0 \<le> euclidean (lm 43) (lm 47) + euclidean (lm 44) (lm 46)"
    by (simp_all add: euclidean_nonneg)
  have lc: "l = PosInf \<or> l = NaN \<or> (\<exists>x. l = F64 x)"
    using nn(1) by (auto simp: l_def)
  have rc: "r = PosInf \<or> r = NaN \<or> (\<exists>x. r = F64 x)"
    using nn(2) by (auto simp: r_def)
  have deg: "l = PosInf \<or> l = NaN \<or> r = PosInf \<or> r = NaN"
    using d nn by (auto simp: l_def r_def euclidean_eq_0_iff)
  from lc rc deg have "np_add l r = PosInf \<or> np_add l r = NaN" by auto
  then show v: "face_ear lm = PosInf \<or> face_ear lm = NaN"
    unfolding fe by auto
  then show n: "\<not> np_lt (face_ear lm) (EAR_THRESHOLD cfg)"
    by (cases "EAR_THRESHOLD cfg") auto
  then show "process_frame cfg s [(lm, now)] =
          (s\<lparr>eye_closed_frames := 0, is_drowsy := False\<rparr>, [], None)"
    by (simp add: process_frame_single check_drowsiness_high)
qed

theorem degenerate_eye_witness:
  "((5, 5) :: point) = (5, 5)
   \<and> calculate_ear [(5, 5), (5, 7), (5, 7), (5, 5), (5, 5), (5, 5)] = Inr PosInf
   \<and> axis_face 1 1 0 36 = axis_face 1 1 0 39
   \<and> face_ear (axis_face 1 1 0) = PosInf
   \<and> process_frame scenario_config ((init_detector 0)\<lparr>eye_closed_frames := 2\<rparr>)
        [(axis_face 1 1 0, 7)] = (init_detector 0, [], None)"
  using degenerate_eye [of "(5, 5)" "(5, 5)" "(5, 7)" "(5, 5)" "(5, 7)" "(5, 5)" "F64 0.25"
      "axis_face 1 1 0" scenario_config "(init_detector 0)\<lparr>eye_closed_frames := 2\<rparr>" 7]
  by (simp add: euclidean_vertical face_ear_axis axis_face_def init_detector_def)

section \<open>Frames with several faces\<close>

text \<open>
  Claim C7, as stated, fails: three below-threshold faces in one frame take a fresh
  detector to a counter of 3 and to Drowsy (threshold 3), while the last of these faces
  alone gives a counter of 1 and Alert.
\<close>

theorem last_face_only_counterexample:
  "eye_closed_frames (fst (process_frame scenario_config (init_detector 0)
      [(axis_face 0 0 1, 1), (axis_face 0 0 1, 2), (axis_face 0 0 1, 3)])) = 3
   \<and> is_drowsy (fst (process_frame scenario_config (init_detector 0)
      [(axis_face 0 0 1, 1), (axis_face 0 0 1, 2), (axis_face 0 0 1, 3)]))
   \<and> eye_closed_frames (fst (process_frame scenario_config (init_detector 0)
      [(axis_face 0 0 1, 3)])) = 1
   \<and> \<not> is_drowsy (fst (process_frame scenario_config (init_detector 0)
      [(axis_face 0 0 1, 3)]))"
proof -
  have low: "np_lt (face_ear (axis_face 0 0 1)) (EAR_THRESHOLD scenario_config)"
    by (simp add: face_ear_axis scenario_config_def)
  have ft: "DROWSINESS_FRAMES_THRESHOLD scenario_config = 3"
    by (simp add: scenario_config_def)
  show ?thesis
    by (simp add: process_frame_Cons_proj check_drowsiness_fields low ft init_detector_def)
qed

text \<open>
  Claim C7, amended. Every detected face of a frame is checked in detection order and
  each one drives the shared state: the state after the frame is the per-face check of
  the last face applied to the state the faces before it left, so that below-threshold
  faces of one frame advance the counter by one each. The result agrees with
  processing the last face alone when that face does not read below the threshold
  (counter 0, state Alert).
\<close>

theorem multi_face_frame:
  "fst (process_frame cfg s (faces @ [(lm, now)])) =
     fst (check_drowsiness cfg now (fst (process_frame cfg s faces)) (face_ear lm))
   \<and> (\<not> np_lt (face_ear lm) (EAR_THRESHOLD cfg) \<longrightarrow>
        eye_closed_frames (fst (process_frame cfg s (faces @ [(lm, now)]))) = 0
        \<and> \<not> is_drowsy (fst (process_frame cfg s (faces @ [(lm, now)])))
        \<and> eye_closed_frames (fst (process_frame cfg s (faces @ [(lm, now)]))) =
            eye_closed_frames (fst (process_frame cfg s [(lm, now)]))
        \<and> is_drowsy (fst (process_frame cfg s (faces @ [(lm, now)]))) =
            is_drowsy (fst (process_frame cfg s [(lm, now)])))
   \<and> (frame_low cfg low_faces \<longrightarrow>
        eye_closed_frames (fst (process_frame cfg s low_faces)) =
          eye_closed_frames s + int (length low_faces))"
  by (simp add: process_frame_append process_frame_single check_drowsiness_fields
        process_frame_low_count)

theorem multi_face_frame_witness:
  "\<not> np_lt (face_ear (axis_face 3 3 10)) (EAR_THRESHOLD scenario_config)
   \<and> eye_closed_frames (fst (process_frame scenario_config (init_detector 0)
        ([(axis_face 0 0 1, 1)] @ [(axis_face 3 3 10, 2)]))) = 0
   \<and> frame_low scenario_config [(axis_face 0 0 1, 1), (axis_face 0 0 1, 2)]
   \<and> eye_closed_frames (fst (process_frame scenario_config (init_detector 0)
        [(axis_face 0 0 1, 1), (axis_face 0 0 1, 2)])) = 2"
proof -
  have h1: "\<not> np_lt (face_ear (axis_face 3 3 10)) (EAR_THRESHOLD scenario_config)"
    by (simp add: face_ear_axis scenario_config_def)
  have h2: "frame_low scenario_config [(axis_face 0 0 1, 1), (axis_face 0 0 1, 2)]"
    by (simp add: face_ear_axis scenario_config_def frame_low_def face_low_def)
  note m = multi_face_frame [of scenario_config "init_detector 0" "[(axis_face 0 0 1, 1)]"
      "axis_face 3 3 10" 2 "[(axis_face 0 0 1, 1), (axis_face 0 0 1, 2)]"]
  from m h1 have a: "eye_closed_frames (fst (process_frame scenario_config (init_detector 0)
        ([(axis_face 0 0 1, 1)] @ [(axis_face 3 3 10, 2)]))) = 0"
    by blast
  from m h2 have b: "eye_closed_frames (fst (process_frame scenario_config (init_detector 0)
        [(axis_face 0 0 1, 1), (axis_face 0 0 1, 2)])) =
      eye_closed_frames (init_detector 0)
        + int (length [(axis_face 0 0 1, 1::real), (axis_face 0 0 1, 2)])"
    by blast
  have c: "eye_closed_frames (init_detector 0)
        + int (length [(axis_face 0 0 1, 1::real), (axis_face 0 0 1, 2)]) = 2"
    by (simp add: init_detector_def)
  from h1 h2 a b c show ?thesis by simp
qed

section \<open>The email channel\<close>

text \<open>
  Claim C8. \<^verbatim>\<open>send_alert\<close> never raises: it returns \<^verbatim>\<open>True\<close> or \<^verbatim>\<open>False\<close>. When the
  sender address, the password or the receiver address is empty it returns \<^verbatim>\<open>False\<close>
  and no SMTP step is taken. When building the message raises, or any step of the SMTP
  conversation raises, it returns \<^verbatim>\<open>False\<close>. It returns \<^verbatim>\<open>True\<close> only with all three
  settings present and the conversation run to its end.
\<close>

theorem send_alert_never_raises:
  "(fst (send_alert env n snapshot_path detection_time) = Inr True
      \<or> fst (send_alert env n snapshot_path detection_time) = Inr False)
   \<and> (sender_email n = [] \<or> sender_password n = [] \<or> receiver_email n = []
      \<longrightarrow> send_alert env n snapshot_path detection_time = (Inr False, []))
   \<and> (isl (create_message env n snapshot_path detection_time)
      \<longrightarrow> fst (send_alert env n snapshot_path detection_time) = Inr False)
   \<and> (smtp_connect env \<noteq> None \<or> smtp_starttls env \<noteq> None \<or> smtp_login env \<noteq> None
        \<or> (\<forall>m. smtp_send_message env m \<noteq> None) \<or> smtp_quit env \<noteq> None
      \<longrightarrow> fst (send_alert env n snapshot_path detection_time) = Inr False)
   \<and> (fst (send_alert env n snapshot_path detection_time) = Inr True
      \<longrightarrow> sender_email n \<noteq> [] \<and> sender_password n \<noteq> [] \<and> receiver_email n \<noteq> []
          \<and> Quit \<in> set (snd (send_alert env n snapshot_path detection_time)))"
proof -
  have sess: "fst (smtp_session env m) \<noteq> Inr ()"
    if "smtp_connect env \<noteq> None \<or> smtp_starttls env \<noteq> None \<or> smtp_login env \<noteq> None
        \<or> (\<forall>m. smtp_send_message env m \<noteq> None) \<or> smtp_quit env \<noteq> None" for m
  proof -
    from that have "smtp_connect env \<noteq> None \<or> smtp_starttls env \<noteq> None
        \<or> smtp_login env \<noteq> None \<or> smtp_send_message env m \<noteq> None \<or> smtp_quit env \<noteq> None"
      by blast
    then show ?thesis
      by (auto simp: smtp_session_def Let_def split: option.splits prod.splits)
  qed
  have quit: "Quit \<in> set (snd (smtp_session env m))" if "fst (smtp_session env m) = Inr ()" for m
    using that
    by (auto simp: smtp_session_def Let_def split: option.splits prod.splits)
  let ?r = "send_alert env n snapshot_path detection_time"
  let ?c = "create_message env n snapshot_path detection_time"
  have res: "fst ?r = Inr (py_all [sender_email n, sender_password n, receiver_email n]
       \<and> (case ?c of Inl e \<Rightarrow> False | Inr msg \<Rightarrow> fst (smtp_session env msg) = Inr ()))"
    by (auto simp: send_alert_def send_alert_try_def split: sum.splits prod.splits)
  have tr: "snd ?r = (if py_all [sender_email n, sender_password n, receiver_email n]
       then (case ?c of Inl e \<Rightarrow> [] | Inr msg \<Rightarrow> snd (smtp_session env msg)) else [])"
    by (auto simp: send_alert_def send_alert_try_def split: sum.splits prod.splits)
  show ?thesis
  proof (intro conjI impI)
    show "fst ?r = Inr True \<or> fst ?r = Inr False"
      unfolding res by auto
  next
    assume "sender_email n = [] \<or> sender_password n = [] \<or> receiver_email n = []"
    then have "\<not> py_all [sender_email n, sender_password n, receiver_email n]"
      by (auto simp: py_all_def)
    then show "?r = (Inr False, [])"
      using res tr by (simp add: prod_eq_iff)
  next
    assume "isl ?c"
    then show "fst ?r = Inr False"
      unfolding res by (cases ?c) simp_all
  next
    assume "smtp_connect env \<noteq> None \<or> smtp_starttls env \<noteq> None \<or> smtp_login env \<noteq> None
        \<or> (\<forall>m. smtp_send_message env m \<noteq> None) \<or> smtp_quit env \<noteq> None"
    from sess [OF this]
    show "fst ?r = Inr False"
      unfolding res by (cases ?c) simp_all
  next
    assume t: "fst ?r = Inr True"
    then have a: "py_all [sender_email n, sender_password n, receiver_email n]"
      and b: "case ?c of Inl e \<Rightarrow> False | Inr msg \<Rightarrow> fst (smtp_session env msg) = Inr ()"
      unfolding res by simp_all
    from a show "sender_email n \<noteq> []" "sender_password n \<noteq> []" "receiver_email n \<noteq> []"
      by (simp_all add: py_all_def)
    from b obtain msg where m: "?c = Inr msg" "fst (smtp_session env msg) = Inr ()"
      by (cases ?c) simp_all
    from quit [OF m(2)] show "Quit \<in> set (snd ?r)"
      unfolding tr using a m(1) by simp
  qed
qed

theorem send_alert_never_raises_witness:
  "sender_password unconfigured_notifier = []
   \<and> send_alert offline_env unconfigured_notifier ''snapshots/drowsy_1.jpg'' 1 = (Inr False, [])
   \<and> smtp_connect offline_env \<noteq> None
   \<and> fst (send_alert offline_env configured_notifier ''snapshots/drowsy_1.jpg'' 1) = Inr False"
proof -
  have h1: "sender_password unconfigured_notifier = []"
    by (simp add: unconfigured_notifier_def)
  have h2: "smtp_connect offline_env \<noteq> None"
    by (simp add: offline_env_def)
  from h1 have a: "send_alert offline_env unconfigured_notifier ''snapshots/drowsy_1.jpg'' 1
      = (Inr False, [])"
    using send_alert_never_raises
      [of offline_env unconfigured_notifier "''snapshots/drowsy_1.jpg''" 1]
    by blast
  from h2 have b: "fst (send_alert offline_env configured_notifier ''snapshots/drowsy_1.jpg'' 1)
      = Inr False"
    using send_alert_never_raises
      [of offline_env configured_notifier "''snapshots/drowsy_1.jpg''" 1]
    by blast
  from h1 h2 a b show ?thesis by blast
qed

section \<open>Session statistics\<close>



end
